theory Spec2Isabelle
  imports Main "HOL-Library.Word"
begin

unbundle bit_operations_syntax

section \<open>Identifiers, timestamps and errors\<close>

text \<open>
  A \<^verbatim>\<open>primitive.ObjectID\<close> is an array of twelve bytes; it is read here as one
  96-bit word (big endian). \<^verbatim>\<open>NilObjectID\<close> is the all-zero array.
\<close>

type_synonym ObjectID = "96 word"

definition NilObjectID :: ObjectID where
  "NilObjectID = 0"

definition ObjectID_IsZero :: "ObjectID \<Rightarrow> bool" where
  "ObjectID_IsZero oid = (oid = NilObjectID)"

text \<open>
  \<^verbatim>\<open>primitive.ObjectIDFromHex\<close> accepts exactly the strings of 24 hexadecimal digits
  (either case). The repository maps each of its errors to one domain error, so the two
  ways of failing are kept apart only for readability.
\<close>

definition fromHexChar :: "char \<Rightarrow> nat option" where
  "fromHexChar c =
     (let n = (of_char c :: nat) in
      if 48 \<le> n \<and> n \<le> 57 then Some (n - 48)
      else if 97 \<le> n \<and> n \<le> 102 then Some (n - 87)
      else if 65 \<le> n \<and> n \<le> 70 then Some (n - 55)
      else None)"

fun hex_Decode :: "string \<Rightarrow> nat list option" where
  "hex_Decode [] = Some []"
| "hex_Decode (c # cs) =
     (case fromHexChar c of
        None \<Rightarrow> None
      | Some d \<Rightarrow> (case hex_Decode cs of None \<Rightarrow> None | Some ds \<Rightarrow> Some (d # ds)))"

datatype hex_error = ErrInvalidHex | InvalidByteError

definition ObjectIDFromHex :: "string \<Rightarrow> hex_error + ObjectID" where
  "ObjectIDFromHex s =
     (if length s \<noteq> 24 then Inl ErrInvalidHex
      else case hex_Decode s of
             None \<Rightarrow> Inl InvalidByteError
           | Some ds \<Rightarrow> Inr (foldl (\<lambda>a d. 16 * a + of_nat d) 0 ds))"

text \<open>
  A \<^verbatim>\<open>time.Time\<close> is an instant, counted in nanoseconds from the zero instant of Go
  (January 1 of year 1, UTC); \<^verbatim>\<open>IsZero\<close> holds of that instant alone.
\<close>

type_synonym Time = int

definition Time_IsZero :: "Time \<Rightarrow> bool" where
  "Time_IsZero t = (t = 0)"

text \<open>
  What a call of the MongoDB driver can fail with: no matching document, a violated
  unique index, or any other failure of the round trip (a deadline that expired, a lost
  connection), which carries its message.
\<close>

datatype mongo_error = ErrNoDocuments | DuplicateKeyError | DriverError string

definition IsDuplicateKeyError :: "mongo_error \<Rightarrow> bool" where
  "IsDuplicateKeyError e = (e = DuplicateKeyError)"

text \<open>
  The error values of the repositories: the sentinels of package \<^verbatim>\<open>domain\<close> that the
  code names, an error made on the spot by \<^verbatim>\<open>errors.New\<close>, and a driver error
  handed on as it is.
\<close>

datatype error =
    ErrInvalidTaskID
  | ErrTaskNotFound
  | ErrUserExists
  | ErrUserNotFound
  | ErrInvalidCredentials
  | errors_New string
  | Mongo mongo_error

section \<open>Tasks and the task collection\<close>

text \<open>
  Modelled from the spec: the declaration of \<^verbatim>\<open>domain.Task\<close> is not among the sources;
  its fields, their BSON tags (\<^verbatim>\<open>_id\<close>, \<^verbatim>\<open>title\<close>, \<^verbatim>\<open>description\<close>,
  \<^verbatim>\<open>due_date\<close>, \<^verbatim>\<open>status\<close>) and the binding tag of \<^verbatim>\<open>Status\<close>
  (\<^verbatim>\<open>oneof=pending in_progress completed\<close>) are those of the repository's API
  documentation (Document Structure) and of section 3 of the specification.
\<close>

record Task =
  ID :: ObjectID
  Title :: string
  Description :: string
  DueDate :: Time
  Status :: string

text \<open>
  The driver writes a \<^verbatim>\<open>time.Time\<close> as a BSON datetime, which counts milliseconds:
  the instant is cut down to the millisecond at or before it (the zero instant of Go is
  a whole second, so counting from it or from 1970 cuts alike). \<open>stored_form\<close> is a
  task as it comes back from the collection once it has been written there.
\<close>

definition bson_DateTime :: "Time \<Rightarrow> Time" where
  "bson_DateTime t = t - t mod 1000000"

definition stored_form :: "Task \<Rightarrow> Task" where
  "stored_form t = t\<lparr>DueDate := bson_DateTime (DueDate t)\<rparr>"

text \<open>
  The collection \<^verbatim>\<open>tasks\<close> holds the documents in the order of their insertion, each
  decoded as a \<^verbatim>\<open>Task\<close>. \<open>fault\<close> is the environment: when it is \<open>Some msg\<close> the
  server does not answer and every call of the driver fails with that message, leaving
  the documents as they are.
\<close>

record task_collection =
  documents :: "Task list"
  fault :: "string option"

text \<open>The values the code stores under \<^verbatim>\<open>$set\<close>, and the \<^verbatim>\<open>bson.M\<close> that holds them.\<close>

datatype bson_value = String string | DateTime Time

type_synonym bson_M = "(string \<times> bson_value) list"

text \<open>
  \<^verbatim>\<open>$set\<close> of one key on a stored task, read through the BSON tags of \<^verbatim>\<open>Task\<close>. A
  key that is no tag of \<^verbatim>\<open>Task\<close>, or a value of another type than the field's, does
  not reach the decoded fields.
\<close>

fun set_field :: "Task \<Rightarrow> string \<times> bson_value \<Rightarrow> Task" where
  "set_field t (k, String s) =
     (if k = ''title'' then t\<lparr>Title := s\<rparr>
      else if k = ''description'' then t\<lparr>Description := s\<rparr>
      else if k = ''status'' then t\<lparr>Status := s\<rparr>
      else t)"
| "set_field t (k, DateTime d) =
     (if k = ''due_date'' then t\<lparr>DueDate := bson_DateTime d\<rparr> else t)"

definition apply_set :: "bson_M \<Rightarrow> Task \<Rightarrow> Task" where
  "apply_set m t = foldl set_field t m"

text \<open>
  \<^verbatim>\<open>InsertOne\<close>: the server refuses a second document with the same \<^verbatim>\<open>_id\<close>;
  what it keeps is the stored form of the task.
\<close>

definition InsertOne :: "task_collection \<Rightarrow> Task \<Rightarrow> mongo_error + task_collection" where
  "InsertOne c t =
     (case fault c of
        Some msg \<Rightarrow> Inl (DriverError msg)
      | None \<Rightarrow>
          if ID t \<in> set (map ID (documents c)) then Inl DuplicateKeyError
          else Inr (c\<lparr>documents := documents c @ [stored_form t]\<rparr>))"

text \<open>\<^verbatim>\<open>DeleteOne\<close> with the filter \<^verbatim>\<open>{"_id": objID}\<close>: the first match goes.\<close>

fun delete_first :: "ObjectID \<Rightarrow> Task list \<Rightarrow> Task list \<times> nat" where
  "delete_first oid [] = ([], 0)"
| "delete_first oid (t # ts) =
     (if ID t = oid then (ts, 1)
      else (case delete_first oid ts of (ts', n) \<Rightarrow> (t # ts', n)))"

definition DeleteOne :: "task_collection \<Rightarrow> ObjectID \<Rightarrow> mongo_error + (task_collection \<times> nat)" where
  "DeleteOne c oid =
     (case fault c of
        Some msg \<Rightarrow> Inl (DriverError msg)
      | None \<Rightarrow>
          (case delete_first oid (documents c) of
             (ts, DeletedCount) \<Rightarrow> Inr (c\<lparr>documents := ts\<rparr>, DeletedCount)))"

text \<open>\<^verbatim>\<open>FindOne\<close> with the filter \<^verbatim>\<open>{"_id": objID}\<close>, decoded.\<close>

definition FindOne :: "task_collection \<Rightarrow> ObjectID \<Rightarrow> mongo_error + Task" where
  "FindOne c oid =
     (case fault c of
        Some msg \<Rightarrow> Inl (DriverError msg)
      | None \<Rightarrow>
          (case find (\<lambda>t. ID t = oid) (documents c) of
             None \<Rightarrow> Inl ErrNoDocuments
           | Some t \<Rightarrow> Inr t))"

text \<open>
  \<^verbatim>\<open>FindOneAndUpdate\<close> with the filter \<^verbatim>\<open>{"_id": objID}\<close>, the update
  \<^verbatim>\<open>{"$set": m}\<close> and \<^verbatim>\<open>ReturnDocument(After)\<close>: the first match is rewritten in
  place and the document as it is afterwards comes back.
\<close>

fun update_first :: "ObjectID \<Rightarrow> bson_M \<Rightarrow> Task list \<Rightarrow> (Task list \<times> Task) option" where
  "update_first oid m [] = None"
| "update_first oid m (t # ts) =
     (if ID t = oid then Some (apply_set m t # ts, apply_set m t)
      else (case update_first oid m ts of
              None \<Rightarrow> None
            | Some (ts', t') \<Rightarrow> Some (t # ts', t')))"

definition FindOneAndUpdate ::
  "task_collection \<Rightarrow> ObjectID \<Rightarrow> bson_M \<Rightarrow> mongo_error + (task_collection \<times> Task)" where
  "FindOneAndUpdate c oid m =
     (case fault c of
        Some msg \<Rightarrow> Inl (DriverError msg)
      | None \<Rightarrow>
          (case update_first oid m (documents c) of
             None \<Rightarrow> Inl ErrNoDocuments
           | Some (ts, t) \<Rightarrow> Inr (c\<lparr>documents := ts\<rparr>, t)))"

text \<open>
  \<^verbatim>\<open>Find\<close> with the empty filter gives a cursor over all documents, in their order.
\<close>

definition Find :: "task_collection \<Rightarrow> mongo_error + Task list" where
  "Find c =
     (case fault c of
        Some msg \<Rightarrow> Inl (DriverError msg)
      | None \<Rightarrow> Inr (documents c))"

text \<open>
  A Go slice is \<^verbatim>\<open>nil\<close> or holds elements; both have length zero when empty, but they
  are different values (and different JSON). \<^verbatim>\<open>cursor.All\<close> appends the documents of
  the cursor to the slice it is given, so a \<^verbatim>\<open>nil\<close> slice stays \<^verbatim>\<open>nil\<close> when the
  cursor is empty. The documents of the cursor are already with the driver, and a typed
  document always decodes: in this model the call does not fail.
\<close>

datatype 'a slice = nil | Slice "'a list"

fun len :: "'a slice \<Rightarrow> nat" where
  "len nil = 0"
| "len (Slice xs) = length xs"

fun append_all :: "'a slice \<Rightarrow> 'a list \<Rightarrow> 'a slice" where
  "append_all s [] = s"
| "append_all nil (x # xs) = Slice (x # xs)"
| "append_all (Slice ys) (x # xs) = Slice (ys @ x # xs)"

definition cursor_All :: "Task list \<Rightarrow> Task slice \<Rightarrow> mongo_error + Task slice" where
  "cursor_All cursor results = Inr (append_all results cursor)"

section \<open>The task repository\<close>

text \<open>
  Every operation takes the collection and returns it with its result. An identifier that
  \<^verbatim>\<open>primitive.NewObjectID()\<close> draws is an argument, \<open>newID\<close>; it begins with the
  time of the call and is never \<^verbatim>\<open>NilObjectID\<close>.
\<close>

definition CreateTask :: "ObjectID \<Rightarrow> task_collection \<Rightarrow> Task \<Rightarrow> task_collection \<times> (error + Task)" where
  "CreateTask newID c task =
     (let task = task\<lparr>ID := newID\<rparr> in
      case InsertOne c task of
        Inl err \<Rightarrow> (c, Inl (Mongo err))
      | Inr c' \<Rightarrow> (c', Inr task))"

definition DeleteTask :: "task_collection \<Rightarrow> string \<Rightarrow> task_collection \<times> error option" where
  "DeleteTask c taskID =
     (case ObjectIDFromHex taskID of
        Inl err \<Rightarrow> (c, Some ErrInvalidTaskID)
      | Inr objID \<Rightarrow>
          (case DeleteOne c objID of
             Inl err \<Rightarrow> (c, Some (Mongo err))
           | Inr (c', DeletedCount) \<Rightarrow>
               if DeletedCount = 0 then (c', Some ErrTaskNotFound)
               else (c', None)))"

definition GetAllTasks :: "task_collection \<Rightarrow> error + Task slice" where
  "GetAllTasks c =
     (case Find c of
        Inl err \<Rightarrow> Inl (Mongo err)
      | Inr cursor \<Rightarrow>
          (case cursor_All cursor nil of
             Inl err \<Rightarrow> Inl (Mongo err)
           | Inr allTasks \<Rightarrow>
               if allTasks = nil then Inr (Slice [])
               else Inr allTasks))"

definition GetTaskByID :: "task_collection \<Rightarrow> string \<Rightarrow> error + Task" where
  "GetTaskByID c taskID =
     (case ObjectIDFromHex taskID of
        Inl err \<Rightarrow> Inl ErrInvalidTaskID
      | Inr objID \<Rightarrow>
          (case FindOne c objID of
             Inl err \<Rightarrow>
               if err = ErrNoDocuments then Inl ErrTaskNotFound
               else Inl (Mongo err)
           | Inr task \<Rightarrow> Inr task))"

definition setFields_of :: "Task \<Rightarrow> bson_M" where
  "setFields_of taskUpdate =
     (if Title taskUpdate \<noteq> '''' then [(''title'', String (Title taskUpdate))] else []) @
     (if Description taskUpdate \<noteq> '''' then [(''description'', String (Description taskUpdate))] else []) @
     (if \<not> Time_IsZero (DueDate taskUpdate) then [(''due_date'', DateTime (DueDate taskUpdate))] else []) @
     (if Status taskUpdate \<noteq> '''' then [(''status'', String (Status taskUpdate))] else [])"

definition UpdateTask :: "task_collection \<Rightarrow> string \<Rightarrow> Task \<Rightarrow> task_collection \<times> (error + Task)" where
  "UpdateTask c taskID taskUpdate =
     (case ObjectIDFromHex taskID of
        Inl err \<Rightarrow> (c, Inl ErrInvalidTaskID)
      | Inr objID \<Rightarrow>
          (let setFields = setFields_of taskUpdate in
           if length setFields = 0 then (c, Inl (errors_New ''no valid fields provided for update''))
           else
             (case FindOneAndUpdate c objID setFields of
                Inl err \<Rightarrow>
                  if err = ErrNoDocuments then (c, Inl ErrTaskNotFound)
                  else (c, Inl (Mongo err))
              | Inr (c', updatedTask) \<Rightarrow> (c', Inr updatedTask))))"

section \<open>Users and the user repository\<close>

text \<open>
  Modelled from the spec: the declaration of \<^verbatim>\<open>domain.User\<close> is not among the sources.
  The code reads its fields \<^verbatim>\<open>ID\<close>, \<^verbatim>\<open>Username\<close> and \<^verbatim>\<open>Role\<close>; the password hash
  is the fourth field of section 3 of the specification. \<open>UserID\<close> is the field
  \<^verbatim>\<open>ID\<close> of the Go structure.
\<close>

record User =
  UserID :: ObjectID
  Username :: string
  Password :: string
  Role :: string

text \<open>
  The collection \<^verbatim>\<open>users\<close>. The server always keeps \<^verbatim>\<open>_id\<close> unique; it keeps
  \<^verbatim>\<open>username\<close> unique only when the collection carries a unique index on that field,
  which is a property of the database the program connects to (no source file creates
  one): \<open>username_index\<close>.
\<close>

record user_collection =
  users :: "User list"
  username_index :: bool
  user_fault :: "string option"

definition InsertOne_user :: "user_collection \<Rightarrow> User \<Rightarrow> mongo_error + user_collection" where
  "InsertOne_user c u =
     (case user_fault c of
        Some msg \<Rightarrow> Inl (DriverError msg)
      | None \<Rightarrow>
          if UserID u \<in> set (map UserID (users c)) then Inl DuplicateKeyError
          else if username_index c \<and> Username u \<in> set (map Username (users c))
            then Inl DuplicateKeyError
          else Inr (c\<lparr>users := users c @ [u]\<rparr>))"

definition CreateUser :: "ObjectID \<Rightarrow> user_collection \<Rightarrow> User \<Rightarrow> user_collection \<times> error option" where
  "CreateUser newID c user =
     (let user = (if ObjectID_IsZero (UserID user) then user\<lparr>UserID := newID\<rparr> else user) in
      case InsertOne_user c user of
        Inl err \<Rightarrow>
          if IsDuplicateKeyError err then (c, Some ErrUserExists)
          else (c, Some (Mongo err))
      | Inr c' \<Rightarrow> (c', None))"

section \<open>The controllers\<close>

text \<open>
  What \<^verbatim>\<open>c.JSON\<close> writes: a status code and a JSON value. An \<^verbatim>\<open>ObjectID\<close> is
  rendered as its 24 hexadecimal digits and an instant in RFC 3339; \<open>ErrorText e\<close> is
  the string \<^verbatim>\<open>e.Error()\<close>, whose wording is in package \<^verbatim>\<open>domain\<close>. A
  \<^verbatim>\<open>gin.H\<close> is a Go map, written with its keys in increasing order.
\<close>

datatype json =
    Null
  | Str string
  | Oid ObjectID
  | Instant Time
  | ErrorText error
  | Arr "json list"
  | Obj "(string \<times> json) list"

definition Task_json :: "Task \<Rightarrow> json" where
  "Task_json t =
     Obj [(''id'', Oid (ID t)), (''title'', Str (Title t)), (''description'', Str (Description t)),
          (''due_date'', Instant (DueDate t)), (''status'', Str (Status t))]"

fun slice_json :: "Task slice \<Rightarrow> json" where
  "slice_json nil = Null"
| "slice_json (Slice ts) = Arr (map Task_json ts)"

text \<open>
  The controllers call the use cases, which are not among the sources: the result of the
  call is an argument (\<open>GetAllTasks\<close> of the use case), or the use case itself is
  (\<open>Login\<close>). What \<^verbatim>\<open>ShouldBindJSON\<close> made of the request body is an argument too:
  its error message, or the bound value.
\<close>








definition TaskController_GetAllTasks :: "error + Task slice \<Rightarrow> nat \<times> json" where
  "TaskController_GetAllTasks result =
     (case result of
        Inl err \<Rightarrow> (500, Obj [(''error'', ErrorText err)])
      | Inr tasks \<Rightarrow>
          if len tasks = 0 then (200, slice_json (Slice []))
          else (200, slice_json tasks))"

record Credentials =
  cred_Username :: string
  cred_Password :: string

definition UserController_Login ::
  "string + Credentials \<Rightarrow> (Credentials \<Rightarrow> error + string \<times> User) \<Rightarrow> nat \<times> json" where
  "UserController_Login bound Login =
     (case bound of
        Inl msg \<Rightarrow> (400, Obj [(''error'', Str msg)])
      | Inr creds \<Rightarrow>
          (case Login creds of
             Inl err \<Rightarrow>
               if err = ErrInvalidCredentials then (401, Obj [(''error'', ErrorText err)])
               else (500, Obj [(''error'', ErrorText err)])
           | Inr (token, user) \<Rightarrow>
               (200, Obj [(''token'', Str token),
                          (''user'', Obj [(''id'', Oid (UserID user)),
                                          (''role'', Str (Role user)),
                                          (''username'', Str (Username user))])])))"

section \<open>The password service\<close>

text \<open>
  \<^verbatim>\<open>HashPassword\<close> and \<^verbatim>\<open>CheckPassword\<close> are two calls into the library
  \<^verbatim>\<open>golang.org/x/crypto/bcrypt\<close>, which is no part of the repository. The library is
  modelled after its published source as far as the claims need it: how a password
  enters the key schedule, the text of a hash and how it is read back, and the errors.
  The Blowfish computation itself is a parameter of the model (\<open>blowfish\<close> below), so
  every theorem holds whatever Blowfish computes.
\<close>

datatype bcrypt_error =
    ErrMismatchedHashAndPassword
  | ErrHashTooShort
  | ErrPasswordTooLong
  | InvalidHashPrefixError
  | HashVersionTooNewError
  | InvalidCostError
  | NumError
  | CorruptInputError
  | RandError

text \<open>
  The key schedule reads the key through \<^verbatim>\<open>getNextWord\<close>: four bytes from the current
  position make a big-endian word, and the position starts again at zero when it reaches
  the end of the key. Both \<^verbatim>\<open>expandKeyWithSalt\<close> and \<^verbatim>\<open>ExpandKey\<close> read eighteen
  words this way, from position zero: \<open>key_words\<close>. A key is never empty here.
\<close>

definition next_byte :: "string \<Rightarrow> 32 word \<times> nat \<Rightarrow> 32 word \<times> nat" where
  "next_byte b = (\<lambda>(w, j). (push_bit 8 w OR of_char (b ! j), if j + 1 \<ge> length b then 0 else j + 1))"

definition getNextWord :: "string \<Rightarrow> nat \<Rightarrow> 32 word \<times> nat" where
  "getNextWord b pos = (next_byte b ^^ 4) (0, pos)"

fun key_words_from :: "string \<Rightarrow> nat \<Rightarrow> nat \<Rightarrow> 32 word list" where
  "key_words_from key 0 j = []"
| "key_words_from key (Suc n) j =
     (case getNextWord key j of (d, j') \<Rightarrow> d # key_words_from key n j')"

definition key_words :: "string \<Rightarrow> 32 word list" where
  "key_words key = key_words_from key 18 0"

text \<open>
  The closed form of these words, used in the proofs: \<open>cyclic b j n\<close> are the \<open>n\<close>
  bytes of the key \<open>b\<close>, repeated without end, from position \<open>j\<close>.
\<close>

definition pack :: "32 word \<Rightarrow> string \<Rightarrow> 32 word" where
  "pack w cs = foldl (\<lambda>w c. push_bit 8 w OR of_char c) w cs"

definition cyclic :: "string \<Rightarrow> nat \<Rightarrow> nat \<Rightarrow> string" where
  "cyclic b j n = map (\<lambda>i. b ! ((j + i) mod length b)) [0 ..< n]"

text \<open>
  \<open>blowfish\<close> stands for \<^verbatim>\<open>expensiveBlowfishSetup\<close> followed by the encryption of
  the 24-byte magic text, 64 times: from the eighteen key words, the cost and the salt as
  it is written in the hash, to the three encrypted 64-bit blocks, or to an error (the
  salt does not decode).
\<close>

type_synonym blowfish =
  "32 word list \<Rightarrow> nat \<Rightarrow> string \<Rightarrow> bcrypt_error + 64 word \<times> 64 word \<times> 64 word"

text \<open>
  The base-64 encoding of the library (its own alphabet, the padding removed), and the
  bytes of a block and of the 16 random bytes of a salt.
\<close>

definition alphabet :: string where
  "alphabet = ''./ABCDEFGHIJKLMNOPQRSTUVWXYZabcdefghijklmnopqrstuvwxyz0123456789''"

fun base64Encode :: "8 word list \<Rightarrow> string" where
  "base64Encode (a # b # c # src) =
     [alphabet ! (unat a div 4),
      alphabet ! (unat a mod 4 * 16 + unat b div 16),
      alphabet ! (unat b mod 16 * 4 + unat c div 64),
      alphabet ! (unat c mod 64)] @ base64Encode src"
| "base64Encode [a, b] =
     [alphabet ! (unat a div 4),
      alphabet ! (unat a mod 4 * 16 + unat b div 16),
      alphabet ! (unat b mod 16 * 4)]"
| "base64Encode [a] =
     [alphabet ! (unat a div 4),
      alphabet ! (unat a mod 4 * 16)]"
| "base64Encode [] = []"

definition block_bytes :: "64 word \<Rightarrow> 8 word list" where
  "block_bytes w = map (\<lambda>i. ucast (drop_bit (8 * (7 - i)) w)) [0 ..< 8]"

definition salt_bytes :: "128 word \<Rightarrow> 8 word list" where
  "salt_bytes w = map (\<lambda>i. ucast (drop_bit (8 * (15 - i)) w)) [0 ..< 16]"

text \<open>
  \<^verbatim>\<open>bcrypt\<close>: the key is the password followed by a zero byte, and 23 of the 24
  encrypted bytes are encoded.
\<close>

definition bcrypt :: "blowfish \<Rightarrow> string \<Rightarrow> nat \<Rightarrow> string \<Rightarrow> bcrypt_error + string" where
  "bcrypt bf password cost salt =
     (let ckey = password @ [CHR 0x00] in
      case bf (key_words ckey) cost salt of
        Inl err \<Rightarrow> Inl err
      | Inr (b1, b2, b3) \<Rightarrow>
          Inr (base64Encode (take 23 (block_bytes b1 @ block_bytes b2 @ block_bytes b3))))"

text \<open>
  A parsed hash, and its text \<^verbatim>\<open>$2a$10$\<close> followed by the 22 characters of the salt
  and the 31 characters of the digest. \<open>p_minor\<close> is the zero byte when the text has no
  minor version.
\<close>

record hashed =
  p_hash :: string
  p_salt :: string
  p_cost :: nat
  p_major :: char
  p_minor :: char

definition Sprintf_02d :: "nat \<Rightarrow> string" where
  "Sprintf_02d n = [char_of (48 + n div 10), char_of (48 + n mod 10)]"

definition Hash :: "hashed \<Rightarrow> string" where
  "Hash p =
     [CHR ''$'', p_major p] @
     (if p_minor p \<noteq> CHR 0x00 then [p_minor p] else []) @
     [CHR ''$''] @ Sprintf_02d (p_cost p) @ [CHR ''$''] @
     take 22 (p_salt p @ replicate 22 (CHR 0x00)) @
     take 31 (p_hash p @ replicate 31 (CHR 0x00))"

text \<open>\<^verbatim>\<open>strconv.Atoi\<close> on the two characters of the cost, and the bounds of a cost.\<close>

definition digit_of :: "char \<Rightarrow> int option" where
  "digit_of c =
     (let n = (of_char c :: nat) in if 48 \<le> n \<and> n \<le> 57 then Some (int n - 48) else None)"

fun Atoi :: "string \<Rightarrow> int option" where
  "Atoi [c1, c2] =
     (case digit_of c2 of
        None \<Rightarrow> None
      | Some d2 \<Rightarrow>
          (case digit_of c1 of
             Some d1 \<Rightarrow> Some (10 * d1 + d2)
           | None \<Rightarrow>
               if c1 = CHR ''+'' then Some d2
               else if c1 = CHR ''-'' then Some (- d2)
               else None))"
| "Atoi s = None"

definition MinCost :: int where "MinCost = 4"
definition MaxCost :: int where "MaxCost = 31"
definition DefaultCost :: int where "DefaultCost = 10"

definition checkCost :: "int \<Rightarrow> bcrypt_error option" where
  "checkCost cost = (if cost < MinCost \<or> cost > MaxCost then Some InvalidCostError else None)"

definition decodeCost :: "string \<Rightarrow> bcrypt_error + nat" where
  "decodeCost sbytes =
     (case Atoi (take 2 sbytes) of
        None \<Rightarrow> Inl NumError
      | Some cost \<Rightarrow>
          (case checkCost cost of
             Some err \<Rightarrow> Inl err
           | None \<Rightarrow> Inr (nat cost)))"

definition newFromHash :: "string \<Rightarrow> bcrypt_error + hashed" where
  "newFromHash hashedSecret =
     (if length hashedSecret < 59 then Inl ErrHashTooShort
      else if hashedSecret ! 0 \<noteq> CHR ''$'' then Inl InvalidHashPrefixError
      else if (of_char (hashedSecret ! 1) :: nat) > of_char (CHR ''2'') then Inl HashVersionTooNewError
      else
        (let minor = (if hashedSecret ! 2 \<noteq> CHR ''$'' then hashedSecret ! 2 else CHR 0x00);
             n = (if hashedSecret ! 2 \<noteq> CHR ''$'' then 4 else 3);
             afterVersion = drop n hashedSecret
         in case decodeCost afterVersion of
              Inl err \<Rightarrow> Inl err
            | Inr cost \<Rightarrow>
                (let afterCost = drop 3 afterVersion
                 in Inr \<lparr>p_hash = drop 22 afterCost, p_salt = take 22 afterCost,
                         p_cost = cost, p_major = hashedSecret ! 1, p_minor = minor\<rparr>)))"

text \<open>
  \<^verbatim>\<open>GenerateFromPassword\<close> refuses a password of more than 72 bytes. \<open>entropy\<close>
  is what \<^verbatim>\<open>rand.Reader\<close> delivers: sixteen bytes, or nothing when reading fails.
\<close>

definition GenerateFromPassword ::
  "blowfish \<Rightarrow> 128 word option \<Rightarrow> string \<Rightarrow> int \<Rightarrow> bcrypt_error + string" where
  "GenerateFromPassword bf entropy password cost =
     (if length password > 72 then Inl ErrPasswordTooLong
      else
        (let cost = (if cost < MinCost then DefaultCost else cost)
         in case checkCost cost of
              Some err \<Rightarrow> Inl err
            | None \<Rightarrow>
                (case entropy of
                   None \<Rightarrow> Inl RandError
                 | Some unencodedSalt \<Rightarrow>
                     (let salt = base64Encode (salt_bytes unencodedSalt)
                      in case bcrypt bf password (nat cost) salt of
                           Inl err \<Rightarrow> Inl err
                         | Inr hash \<Rightarrow>
                             Inr (Hash \<lparr>p_hash = hash, p_salt = salt, p_cost = nat cost,
                                        p_major = CHR ''2'', p_minor = CHR ''a''\<rparr>)))))"

definition CompareHashAndPassword :: "blowfish \<Rightarrow> string \<Rightarrow> string \<Rightarrow> bcrypt_error option" where
  "CompareHashAndPassword bf hashedPassword password =
     (case newFromHash hashedPassword of
        Inl err \<Rightarrow> Some err
      | Inr p \<Rightarrow>
          (case bcrypt bf password (p_cost p) (p_salt p) of
             Inl err \<Rightarrow> Some err
           | Inr otherHash \<Rightarrow>
               if Hash p = Hash (p\<lparr>p_hash := otherHash\<rparr>) then None
               else Some ErrMismatchedHashAndPassword))"

text \<open>
  The two methods of the service. \<^verbatim>\<open>HashPassword\<close> returns the string of the bytes
  it got (empty on an error) with the error; \<^verbatim>\<open>CheckPassword\<close> returns whether the
  comparison gave no error.
\<close>

definition HashPassword :: "blowfish \<Rightarrow> 128 word option \<Rightarrow> string \<Rightarrow> string \<times> bcrypt_error option" where
  "HashPassword bf entropy password =
     (case GenerateFromPassword bf entropy password DefaultCost of
        Inl err \<Rightarrow> ('''', Some err)
      | Inr bytes \<Rightarrow> (bytes, None))"

definition CheckPassword :: "blowfish \<Rightarrow> string \<Rightarrow> string \<Rightarrow> bool" where
  "CheckPassword bf hashed plain = (CompareHashAndPassword bf hashed plain = None)"

section \<open>Concrete stores and requests\<close>

text \<open>The inputs at which the theorems below are instantiated.\<close>

definition example_task :: Task where
  "example_task = \<lparr>ID = 1, Title = ''write report'', Description = ''quarterly figures'',
     DueDate = 63889200000000000000, Status = ''pending''\<rparr>"

definition example_tasks :: task_collection where
  "example_tasks = \<lparr>documents = [example_task], fault = None\<rparr>"

definition no_tasks :: task_collection where
  "no_tasks = \<lparr>documents = [], fault = None\<rparr>"

definition status_only :: Task where
  "status_only = \<lparr>ID = 0, Title = '''', Description = '''', DueDate = 0, Status = ''completed''\<rparr>"

definition no_fields :: Task where
  "no_fields = \<lparr>ID = 0, Title = '''', Description = '''', DueDate = 0, Status = ''''\<rparr>"

definition titled_task :: Task where
  "titled_task = \<lparr>ID = 7, Title = ''file taxes'', Description = '''', DueDate = 0, Status = ''pending''\<rparr>"

definition one_nanosecond :: Task where
  "one_nanosecond = \<lparr>ID = 0, Title = '''', Description = '''', DueDate = 1, Status = ''''\<rparr>"


definition alice :: User where
  "alice = \<lparr>UserID = 1, Username = ''alice'', Password = ''$2a$10$stored-hash-of-alice'', Role = ''admin''\<rparr>"

definition alice_again :: User where
  "alice_again = \<lparr>UserID = 0, Username = ''alice'', Password = ''$2a$10$another-hash'', Role = ''user''\<rparr>"

definition bob :: User where
  "bob = \<lparr>UserID = 5, Username = ''bob'', Password = ''$2a$10$stored-hash-of-bob'', Role = ''user''\<rparr>"

definition users_without_index :: user_collection where
  "users_without_index = \<lparr>users = [alice], username_index = False, user_fault = None\<rparr>"

definition users_with_index :: user_collection where
  "users_with_index = \<lparr>users = [alice], username_index = True, user_fault = None\<rparr>"

definition alice_login :: "Credentials \<Rightarrow> error + string \<times> User" where
  "alice_login creds =
     (if cred_Username creds = ''alice'' \<and> cred_Password creds = ''pw123456''
      then Inr (''signed-token'', alice) else Inl ErrInvalidCredentials)"

text \<open>
  A function of the type of \<open>blowfish\<close>, at which the theorems with that parameter are
  instantiated; it is not Blowfish.
\<close>

definition stand_in :: blowfish where
  "stand_in kw cost salt =
     (case kw of
        [] \<Rightarrow> Inl CorruptInputError
      | w # ws \<Rightarrow> Inr (ucast w, of_nat (length salt), of_nat cost))"

section \<open>Lemmas about the collections\<close>

lemma set_field_ID: "ID (set_field t kv) = ID t"
  by (cases "(t, kv)" rule: set_field.cases) simp_all

lemma apply_set_ID: "ID (apply_set m t) = ID t"
  unfolding apply_set_def by (induction m arbitrary: t) (simp_all add: set_field_ID)

lemma apply_setFields_of:
  "apply_set (setFields_of p) old =
     old\<lparr>Title := (if Title p \<noteq> '''' then Title p else Title old),
         Description := (if Description p \<noteq> '''' then Description p else Description old),
         DueDate := (if \<not> Time_IsZero (DueDate p) then bson_DateTime (DueDate p) else DueDate old),
         Status := (if Status p \<noteq> '''' then Status p else Status old)\<rparr>"
  by (simp add: setFields_of_def apply_set_def)

lemma setFields_of_empty:
  "setFields_of p = [] \<longleftrightarrow>
     Title p = '''' \<and> Description p = '''' \<and> Time_IsZero (DueDate p) \<and> Status p = ''''"
  by (simp add: setFields_of_def)

lemma update_first_Some:
  "find (\<lambda>t. ID t = oid) ts = Some old \<Longrightarrow>
   \<exists>ts'. update_first oid m ts = Some (ts', apply_set m old) \<and>
         find (\<lambda>t. ID t = oid) ts' = Some (apply_set m old)"
  by (induction ts) (auto split: if_splits simp: apply_set_ID)

lemma update_first_others:
  "update_first oid m ts = Some (ts', t') \<Longrightarrow> oid' \<noteq> oid \<Longrightarrow>
   find (\<lambda>t. ID t = oid') ts' = find (\<lambda>t. ID t = oid') ts"
  by (induction ts arbitrary: ts') (auto split: if_splits option.splits simp: apply_set_ID)

lemma update_first_ids:
  "update_first oid m ts = Some (ts', t') \<Longrightarrow> map ID ts' = map ID ts"
  by (induction ts arbitrary: ts') (auto split: if_splits option.splits simp: apply_set_ID)

lemma delete_first_absent: "oid \<notin> ID ` set ts \<Longrightarrow> delete_first oid ts = (ts, 0)"
  by (induction ts) auto

lemma delete_first_gone:
  "distinct (map ID ts) \<Longrightarrow> delete_first oid ts = (ts', n) \<Longrightarrow> n \<noteq> 0 \<Longrightarrow> oid \<notin> ID ` set ts'"
  by (induction ts arbitrary: ts' n) (auto split: if_splits prod.splits)

lemma delete_first_subset:
  "delete_first oid ts = (ts', n) \<Longrightarrow> set ts' \<subseteq> set ts"
  by (induction ts arbitrary: ts' n) (auto split: if_splits prod.splits)

lemma delete_first_distinct:
  "distinct (map ID ts) \<Longrightarrow> delete_first oid ts = (ts', n) \<Longrightarrow> distinct (map ID ts')"
proof (induction ts arbitrary: ts' n)
  case Nil
  then show ?case by simp
next
  case (Cons t ts)
  show ?case
  proof (cases "ID t = oid")
    case True
    with Cons.prems show ?thesis by simp
  next
    case False
    obtain us k where rest: "delete_first oid ts = (us, k)"
      by (cases "delete_first oid ts")
    with False Cons.prems have shape: "ts' = t # us"
      by simp
    from rest have "set us \<subseteq> set ts"
      by (rule delete_first_subset)
    with Cons.prems(1) have "ID t \<notin> ID ` set us"
      by auto
    moreover from Cons.IH [OF _ rest] Cons.prems(1) have "distinct (map ID us)"
      by simp
    ultimately show ?thesis
      using shape by simp
  qed
qed

lemma find_ID_None: "find (\<lambda>t. ID t = oid) ts = None \<longleftrightarrow> oid \<notin> ID ` set ts"
  by (auto simp: find_None_iff)

lemma ID_stored_form: "ID (stored_form t) = ID t"
  by (simp add: stored_form_def)


lemma whole_milliseconds: "bson_DateTime t mod 1000000 = 0"
  by (simp add: bson_DateTime_def minus_mod_eq_mult_div)





lemma CreateTask_success:
  "CreateTask newID c task = (c', Inr t) \<longleftrightarrow>
     fault c = None \<and> newID \<notin> ID ` set (documents c) \<and>
     t = task\<lparr>ID := newID\<rparr> \<and> c' = c\<lparr>documents := documents c @ [stored_form t]\<rparr>"
  by (auto simp: CreateTask_def InsertOne_def Let_def split: option.splits)

lemma hex_one: "ObjectIDFromHex ''000000000000000000000001'' = Inr 1"
  by (simp add: ObjectIDFromHex_def fromHexChar_def)

lemma hex_two: "ObjectIDFromHex ''000000000000000000000002'' = Inr 2"
  by (simp add: ObjectIDFromHex_def fromHexChar_def)

text \<open>
  The server keeps \<^verbatim>\<open>_id\<close> unique: every operation of the task repository takes a
  collection with distinct identifiers to one with distinct identifiers.
\<close>

lemma CreateTask_distinct:
  "distinct (map ID (documents c)) \<Longrightarrow> distinct (map ID (documents (fst (CreateTask newID c task))))"
  by (auto simp: CreateTask_def InsertOne_def Let_def ID_stored_form split: option.splits)

lemma DeleteTask_distinct:
  "distinct (map ID (documents c)) \<Longrightarrow> distinct (map ID (documents (fst (DeleteTask c taskID))))"
  by (auto simp: DeleteTask_def DeleteOne_def split: sum.splits option.splits prod.splits
      dest: delete_first_distinct)

lemma UpdateTask_distinct:
  "distinct (map ID (documents c)) \<Longrightarrow> distinct (map ID (documents (fst (UpdateTask c taskID p))))"
  by (auto simp: UpdateTask_def FindOneAndUpdate_def Let_def
      split: sum.splits option.splits prod.splits dest: update_first_ids)

section \<open>Lemmas about the key words and the text of a hash\<close>

lemma next_byte_funpow:
  assumes "j < length b"
  shows "(next_byte b ^^ n) (w, j) = (pack w (cyclic b j n), (j + n) mod length b)"
proof (induction n)
  case 0
  from assms show ?case by (simp add: pack_def cyclic_def)
next
  case (Suc n)
  from assms have pos: "0 < length b" by (cases b) simp_all
  have step: "(if (j + n) mod length b + 1 \<ge> length b then 0 else (j + n) mod length b + 1) =
      (j + Suc n) mod length b"
    using mod_less_divisor [OF pos, of "j + n"] by (auto simp: mod_Suc)
  show ?case
    using Suc step by (simp add: next_byte_def pack_def cyclic_def)
qed

lemma getNextWord_cyclic:
  "j < length b \<Longrightarrow> getNextWord b j = (pack 0 (cyclic b j 4), (j + 4) mod length b)"
  by (simp add: getNextWord_def next_byte_funpow)

lemma cyclic_mod_start: "cyclic b (a mod length b + c) n = cyclic b (a + c) n"
  unfolding cyclic_def by (rule map_cong) (simp_all add: add.assoc mod_add_left_eq)

lemma key_words_from_cyclic:
  "j < length b \<Longrightarrow>
   key_words_from b n j = map (\<lambda>m. pack 0 (cyclic b (j + 4 * m) 4)) [0 ..< n]"
proof (induction n arbitrary: j)
  case 0
  then show ?case by simp
next
  case (Suc n)
  then have pos: "0 < length b" by (cases b) simp_all
  then have next_ok: "(j + 4) mod length b < length b" by simp
  have "key_words_from b (Suc n) j =
      pack 0 (cyclic b j 4) # map (\<lambda>m. pack 0 (cyclic b ((j + 4) mod length b + 4 * m) 4)) [0 ..< n]"
    using Suc.prems Suc.IH [OF next_ok] by (simp add: getNextWord_cyclic)
  also have "map (\<lambda>m. pack 0 (cyclic b ((j + 4) mod length b + 4 * m) 4)) [0 ..< n] =
      map (\<lambda>m. pack 0 (cyclic b (j + 4 * Suc m) 4)) [0 ..< n]"
    by (simp add: cyclic_mod_start add.assoc)
  also have "pack 0 (cyclic b j 4) # map (\<lambda>m. pack 0 (cyclic b (j + 4 * Suc m) 4)) [0 ..< n] =
      map (\<lambda>m. pack 0 (cyclic b (j + 4 * m) 4)) [0 ..< Suc n]"
    by (simp add: upt_rec [of 0 "Suc n"] map_Suc_upt [symmetric] del: upt_Suc)
  finally show ?case .
qed

lemma key_words_cyclic:
  "b \<noteq> [] \<Longrightarrow> key_words b = map (\<lambda>m. pack 0 (cyclic b (4 * m) 4)) [0 ..< 18]"
  using key_words_from_cyclic [of 0 b 18] by (simp add: key_words_def)

lemma nth_doubled: "k \<noteq> [] \<Longrightarrow> (k @ k) ! (x mod (2 * length k)) = k ! (x mod length k)"
proof -
  assume "k \<noteq> []"
  then have pos: "0 < length k" by simp
  let ?y = "x mod (2 * length k)"
  have y: "?y < 2 * length k" using pos by simp
  have same: "?y mod length k = x mod length k"
    by (metis dvd_triv_right mod_mod_cancel)
  show ?thesis
  proof (cases "?y < length k")
    case True
    with same show ?thesis by (simp add: nth_append)
  next
    case False
    with y have "(?y - length k) mod length k = ?y - length k"
      by simp
    moreover from False have "(?y - length k) mod length k = ?y mod length k"
      by (simp add: le_mod_geq)
    ultimately show ?thesis
      using False same by (simp add: nth_append)
  qed
qed

lemma cyclic_doubled: "k \<noteq> [] \<Longrightarrow> cyclic (k @ k) j n = cyclic k j n"
  using nth_doubled [of k] by (simp add: cyclic_def mult_2)

lemma key_words_doubled: "k \<noteq> [] \<Longrightarrow> key_words (k @ k) = key_words k"
  by (simp add: key_words_cyclic cyclic_doubled)

lemma cyclic_prefix:
  assumes "j + n \<le> length k"
  shows "cyclic (k @ r) j n = cyclic k j n"
  unfolding cyclic_def
proof (rule map_cong [OF refl])
  fix i assume "i \<in> set [0 ..< n]"
  with assms have "j + i < length k" by simp
  then show "(k @ r) ! ((j + i) mod length (k @ r)) = k ! ((j + i) mod length k)"
    by (simp add: nth_append)
qed

lemma key_words_prefix: "72 \<le> length k \<Longrightarrow> key_words (k @ r) = key_words k"
proof -
  assume long: "72 \<le> length k"
  then have ne: "k \<noteq> []" "k @ r \<noteq> []" by auto
  have "key_words (k @ r) = map (\<lambda>m. pack 0 (cyclic (k @ r) (4 * m) 4)) [0 ..< 18]"
    using ne(2) by (rule key_words_cyclic)
  also have "\<dots> = map (\<lambda>m. pack 0 (cyclic k (4 * m) 4)) [0 ..< 18]"
  proof (rule map_cong [OF refl])
    fix m assume "m \<in> set [0 ..< 18]"
    with long have "4 * m + 4 \<le> length k" by simp
    then show "pack 0 (cyclic (k @ r) (4 * m) 4) = pack 0 (cyclic k (4 * m) 4)"
      by (simp add: cyclic_prefix)
  qed
  also have "\<dots> = key_words k"
    using ne(1) by (rule key_words_cyclic [symmetric])
  finally show ?thesis .
qed

lemma length_base64Encode: "length (base64Encode src) = (4 * length src + 2) div 3"
  by (induction src rule: base64Encode.induct) simp_all

lemma length_block_bytes: "length (block_bytes w) = 8"
  by (simp add: block_bytes_def)

lemma length_salt_bytes: "length (salt_bytes w) = 16"
  by (simp add: salt_bytes_def)

lemma length_bcrypt: "bcrypt bf password cost salt = Inr h \<Longrightarrow> length h = 31"
  by (auto simp: bcrypt_def Let_def length_base64Encode length_block_bytes
      split: sum.splits prod.splits)

lemma newFromHash_Hash:
  assumes "length salt = 22" and "length h = 31"
  shows "newFromHash (Hash \<lparr>p_hash = h, p_salt = salt, p_cost = 10,
            p_major = CHR ''2'', p_minor = CHR ''a''\<rparr>) =
         Inr \<lparr>p_hash = h, p_salt = salt, p_cost = 10, p_major = CHR ''2'', p_minor = CHR ''a''\<rparr>"
  using assms
  by (simp add: newFromHash_def Hash_def Sprintf_02d_def decodeCost_def checkCost_def
      MinCost_def MaxCost_def digit_of_def Let_def)

lemma bcrypt_key_words:
  "key_words (q @ [CHR 0x00]) = key_words (p @ [CHR 0x00]) \<Longrightarrow>
   bcrypt bf q = bcrypt bf p"
  by (intro ext) (simp add: bcrypt_def)

lemma Compare_key_words:
  "key_words (q @ [CHR 0x00]) = key_words (p @ [CHR 0x00]) \<Longrightarrow>
   CompareHashAndPassword bf h q = CompareHashAndPassword bf h p"
proof -
  assume "key_words (q @ [CHR 0x00]) = key_words (p @ [CHR 0x00])"
  then have "bcrypt bf q = bcrypt bf p"
    by (rule bcrypt_key_words)
  then show ?thesis
    unfolding CompareHashAndPassword_def by (simp only:)
qed

lemma Hash_same_iff:
  assumes "length h = 31" and "length h' = 31"
  shows "Hash (p\<lparr>p_hash := h\<rparr>) = Hash (p\<lparr>p_hash := h'\<rparr>) \<longleftrightarrow> h = h'"
  using assms by (auto simp: Hash_def)

lemma HashPassword_ok:
  assumes "HashPassword bf entropy p = (h, None)"
  obtains unencodedSalt digest where
    "length p \<le> 72"
    "entropy = Some unencodedSalt"
    "bcrypt bf p 10 (base64Encode (salt_bytes unencodedSalt)) = Inr digest"
    "h = Hash \<lparr>p_hash = digest, p_salt = base64Encode (salt_bytes unencodedSalt), p_cost = 10,
               p_major = CHR ''2'', p_minor = CHR ''a''\<rparr>"
  using assms
  by (auto simp: HashPassword_def GenerateFromPassword_def DefaultCost_def MinCost_def MaxCost_def
      checkCost_def Let_def split: if_splits sum.splits option.splits)

lemma doubled_password:
  "key_words ((p @ [CHR 0x00] @ p) @ [CHR 0x00]) = key_words (p @ [CHR 0x00])"
  using key_words_doubled [of "p @ [CHR 0x00]"] by simp

lemma long_password:
  "72 \<le> length p \<Longrightarrow> key_words ((p @ rest) @ [CHR 0x00]) = key_words (p @ [CHR 0x00])"
  using key_words_prefix [of p "rest @ [CHR 0x00]"] key_words_prefix [of p "[CHR 0x00]"] by simp

section \<open>The task repository: update\<close>

text \<open>
  Claim C1. \<^verbatim>\<open>UpdateTask\<close> on a stored task, with at least one field given, overwrites
  each of title, description, due date and status exactly when the field of the update
  is not empty (not the zero instant), and keeps the stored value otherwise; what is
  written for a due date is the instant of the update at the resolution of the store,
  the millisecond. It returns the merged record, which is also what the store holds
  under that identifier afterwards, and no other document changes. An update that gives
  only the status leaves title and description as they were (the instance below).
\<close>

theorem UpdateTask_merge:
  assumes "fault c = None"
    and "ObjectIDFromHex taskID = Inr objID"
    and "FindOne c objID = Inr old"
    and "Title p \<noteq> '''' \<or> Description p \<noteq> '''' \<or> \<not> Time_IsZero (DueDate p) \<or> Status p \<noteq> ''''"
  shows "\<exists>c'. UpdateTask c taskID p =
           (c', Inr (old\<lparr>Title := (if Title p \<noteq> '''' then Title p else Title old),
                         Description := (if Description p \<noteq> '''' then Description p else Description old),
                         DueDate := (if \<not> Time_IsZero (DueDate p) then bson_DateTime (DueDate p)
                                     else DueDate old),
                         Status := (if Status p \<noteq> '''' then Status p else Status old)\<rparr>)) \<and>
          GetTaskByID c' taskID = snd (UpdateTask c taskID p) \<and>
          (\<forall>oid. oid \<noteq> objID \<longrightarrow> FindOne c' oid = FindOne c oid)"
proof -
  from assms(1,3) have found: "find (\<lambda>t. ID t = objID) (documents c) = Some old"
    by (simp add: FindOne_def split: option.splits)
  from assms(4) have ne: "setFields_of p \<noteq> []"
    by (simp add: setFields_of_empty)
  from update_first_Some [OF found, of "setFields_of p"]
  obtain ts' where upd: "update_first objID (setFields_of p) (documents c) = Some (ts', apply_set (setFields_of p) old)"
    and again: "find (\<lambda>t. ID t = objID) ts' = Some (apply_set (setFields_of p) old)"
    by blast
  let ?c' = "c\<lparr>documents := ts'\<rparr>"
  have run: "UpdateTask c taskID p = (?c', Inr (apply_set (setFields_of p) old))"
    using assms(1,2) ne upd by (simp add: UpdateTask_def FindOneAndUpdate_def)
  have stored: "FindOne ?c' objID = Inr (apply_set (setFields_of p) old)"
    using assms(1) again by (simp add: FindOne_def)
  have rest: "\<forall>oid. oid \<noteq> objID \<longrightarrow> FindOne ?c' oid = FindOne c oid"
    using assms(1) update_first_others [OF upd] by (simp add: FindOne_def)
  have get: "GetTaskByID ?c' taskID = Inr (apply_set (setFields_of p) old)"
    using assms(2) stored by (simp add: GetTaskByID_def)
  show ?thesis
    using run get rest unfolding apply_setFields_of by (intro exI [of _ ?c']) simp
qed

theorem UpdateTask_merge_witness:
  "fault example_tasks = None \<and>
   ObjectIDFromHex ''000000000000000000000001'' = Inr 1 \<and>
   FindOne example_tasks 1 = Inr example_task \<and>
   Status status_only \<noteq> '''' \<and>
   UpdateTask example_tasks ''000000000000000000000001'' status_only =
     (\<lparr>documents = [example_task\<lparr>Status := ''completed''\<rparr>], fault = None\<rparr>,
      Inr (example_task\<lparr>Status := ''completed''\<rparr>)) \<and>
   GetTaskByID \<lparr>documents = [example_task\<lparr>Status := ''completed''\<rparr>], fault = None\<rparr>
     ''000000000000000000000001'' = Inr (example_task\<lparr>Status := ''completed''\<rparr>) \<and>
   Title (example_task\<lparr>Status := ''completed''\<rparr>) = ''write report'' \<and>
   Description (example_task\<lparr>Status := ''completed''\<rparr>) = ''quarterly figures''"
proof -
  let ?after = "\<lparr>documents = [example_task\<lparr>Status := ''completed''\<rparr>], fault = None\<rparr>"
  have h1: "fault example_tasks = None"
    by (simp add: example_tasks_def)
  have h3: "FindOne example_tasks 1 = Inr example_task"
    by (simp add: FindOne_def example_tasks_def example_task_def)
  have h4: "Title status_only \<noteq> '''' \<or> Description status_only \<noteq> '''' \<or>
      \<not> Time_IsZero (DueDate status_only) \<or> Status status_only \<noteq> ''''"
    by (simp add: status_only_def)
  have store: "fst (UpdateTask example_tasks ''000000000000000000000001'' status_only) = ?after"
    by (simp add: UpdateTask_def hex_one setFields_of_def status_only_def Time_IsZero_def
        FindOneAndUpdate_def apply_set_def example_tasks_def example_task_def)
  from UpdateTask_merge [OF h1 hex_one h3 h4] obtain c' where
    run: "UpdateTask example_tasks ''000000000000000000000001'' status_only =
       (c', Inr (example_task\<lparr>Status := ''completed''\<rparr>))"
    and get: "GetTaskByID c' ''000000000000000000000001'' =
       snd (UpdateTask example_tasks ''000000000000000000000001'' status_only)"
    by (auto simp: status_only_def Time_IsZero_def)
  from run store have "c' = ?after"
    by simp
  with run get h1 hex_one h3 show ?thesis
    by (simp add: status_only_def example_task_def)
qed

text \<open>
  A due date one nanosecond after the zero instant is not zero, so it is written; what
  the store then holds, and what comes back, is the zero instant.
\<close>

lemma UpdateTask_one_nanosecond:
  "\<not> Time_IsZero (DueDate one_nanosecond) \<and>
   UpdateTask example_tasks ''000000000000000000000001'' one_nanosecond =
     (\<lparr>documents = [example_task\<lparr>DueDate := 0\<rparr>], fault = None\<rparr>,
      Inr (example_task\<lparr>DueDate := 0\<rparr>))"
  by (simp add: UpdateTask_def hex_one setFields_of_def one_nanosecond_def Time_IsZero_def
      FindOneAndUpdate_def apply_set_def bson_DateTime_def example_tasks_def example_task_def)

text \<open>
  Claim C2, as amended. When all four fields of the update are empty (the due date the
  zero instant), \<^verbatim>\<open>UpdateTask\<close> fails and returns the store as it was. The error is
  the one made by \<^verbatim>\<open>errors.New("no valid fields provided for update")\<close> when the
  identifier is well formed; for a malformed identifier the check of the identifier
  comes first and the error is \<^verbatim>\<open>ErrInvalidTaskID\<close>.
\<close>

theorem UpdateTask_no_fields:
  assumes "Title p = ''''" and "Description p = ''''"
    and "Time_IsZero (DueDate p)" and "Status p = ''''"
  shows "UpdateTask c taskID p =
           (c, Inl (case ObjectIDFromHex taskID of
                      Inl err \<Rightarrow> ErrInvalidTaskID
                    | Inr objID \<Rightarrow> errors_New ''no valid fields provided for update''))"
proof -
  from assms have "setFields_of p = []"
    by (simp add: setFields_of_empty)
  then show ?thesis
    by (simp add: UpdateTask_def split: sum.splits)
qed

text \<open>The instance at a well-formed identifier.\<close>

theorem UpdateTask_no_fields_witness:
  "Title no_fields = '''' \<and> Description no_fields = '''' \<and>
   Time_IsZero (DueDate no_fields) \<and> Status no_fields = '''' \<and>
   UpdateTask example_tasks ''000000000000000000000001'' no_fields =
     (example_tasks, Inl (errors_New ''no valid fields provided for update''))"
  using UpdateTask_no_fields [of no_fields example_tasks "''000000000000000000000001''"]
  by (simp add: no_fields_def Time_IsZero_def hex_one)

text \<open>
  The claim as it was stated, for every identifier, fails at a malformed one: the empty
  update of \<^verbatim>\<open>not-an-id\<close> is answered with \<^verbatim>\<open>ErrInvalidTaskID\<close>.
\<close>

theorem UpdateTask_no_fields_malformed_id:
  "UpdateTask example_tasks ''not-an-id'' no_fields = (example_tasks, Inl ErrInvalidTaskID) \<and>
   snd (UpdateTask example_tasks ''not-an-id'' no_fields) \<noteq>
     Inl (errors_New ''no valid fields provided for update'')"
  by (simp add: UpdateTask_def ObjectIDFromHex_def)

text \<open>
  Claim C9. For a well-formed identifier and an update with all four fields empty,
  \<^verbatim>\<open>UpdateTask\<close> returns the error of the empty update whatever the collection is:
  the result does not depend on the documents or on whether the server answers, the
  collection is returned untouched, and the error is never \<^verbatim>\<open>ErrTaskNotFound\<close>.
\<close>

theorem UpdateTask_no_fields_before_store:
  assumes "ObjectIDFromHex taskID = Inr objID"
    and "Title p = ''''" and "Description p = ''''"
    and "Time_IsZero (DueDate p)" and "Status p = ''''"
  shows "UpdateTask c taskID p = (c, Inl (errors_New ''no valid fields provided for update'')) \<and>
         snd (UpdateTask c' taskID p) = snd (UpdateTask c taskID p) \<and>
         snd (UpdateTask c taskID p) \<noteq> Inl ErrTaskNotFound"
proof -
  from assms(2-5) have "setFields_of p = []"
    by (simp add: setFields_of_empty)
  with assms(1) show ?thesis
    by (simp add: UpdateTask_def)
qed

text \<open>
  The instance: identifier 2 is well formed and resolves to no task of the example
  store; the empty update gets the error of the empty update, while an update of the
  status on the same identifier gets \<^verbatim>\<open>ErrTaskNotFound\<close>.
\<close>

theorem UpdateTask_no_fields_before_store_witness:
  "ObjectIDFromHex ''000000000000000000000002'' = Inr 2 \<and>
   Title no_fields = '''' \<and> Description no_fields = '''' \<and>
   Time_IsZero (DueDate no_fields) \<and> Status no_fields = '''' \<and>
   FindOne example_tasks 2 = Inl ErrNoDocuments \<and>
   UpdateTask example_tasks ''000000000000000000000002'' no_fields =
     (example_tasks, Inl (errors_New ''no valid fields provided for update'')) \<and>
   UpdateTask example_tasks ''000000000000000000000002'' status_only =
     (example_tasks, Inl ErrTaskNotFound)"
proof -
  have absent: "FindOne example_tasks 2 = Inl ErrNoDocuments"
    by (simp add: FindOne_def example_tasks_def example_task_def)
  have other: "UpdateTask example_tasks ''000000000000000000000002'' status_only =
     (example_tasks, Inl ErrTaskNotFound)"
    by (simp add: UpdateTask_def hex_two setFields_of_def status_only_def Time_IsZero_def
        FindOneAndUpdate_def example_tasks_def example_task_def)
  show ?thesis
    using UpdateTask_no_fields_before_store
      [of "''000000000000000000000002''" 2 no_fields example_tasks example_tasks] absent other
    by (simp add: hex_two no_fields_def Time_IsZero_def)
qed

section \<open>The task repository: delete and read\<close>

text \<open>
  Claim C5. \<^verbatim>\<open>DeleteTask\<close> fails with \<^verbatim>\<open>ErrInvalidTaskID\<close> on a malformed
  identifier; on a well-formed identifier that resolves to no stored task the driver
  reports zero deleted documents and \<^verbatim>\<open>DeleteTask\<close> fails with
  \<^verbatim>\<open>ErrTaskNotFound\<close>, leaving the store as it was; and after a \<^verbatim>\<open>DeleteTask\<close>
  that succeeded, \<^verbatim>\<open>GetTaskByID\<close> of the same identifier fails with
  \<^verbatim>\<open>ErrTaskNotFound\<close> (identifiers are unique in a collection, as the server keeps
  them).
\<close>

theorem DeleteTask_errors:
  "(ObjectIDFromHex taskID = Inl e \<longrightarrow> DeleteTask c taskID = (c, Some ErrInvalidTaskID)) \<and>
   (ObjectIDFromHex taskID = Inr objID \<and> FindOne c objID = Inl ErrNoDocuments \<longrightarrow>
      DeleteOne c objID = Inr (c, 0) \<and> DeleteTask c taskID = (c, Some ErrTaskNotFound)) \<and>
   (distinct (map ID (documents c)) \<and> DeleteTask c taskID = (c', None) \<longrightarrow>
      GetTaskByID c' taskID = Inl ErrTaskNotFound)"
proof (intro conjI impI)
  assume "ObjectIDFromHex taskID = Inl e"
  then show "DeleteTask c taskID = (c, Some ErrInvalidTaskID)"
    by (simp add: DeleteTask_def)
next
  assume a: "ObjectIDFromHex taskID = Inr objID \<and> FindOne c objID = Inl ErrNoDocuments"
  then have nofault: "fault c = None" and "find (\<lambda>t. ID t = objID) (documents c) = None"
    by (auto simp: FindOne_def split: option.splits)
  then have "delete_first objID (documents c) = (documents c, 0)"
    by (simp add: find_ID_None delete_first_absent)
  with nofault show count: "DeleteOne c objID = Inr (c, 0)"
    by (simp add: DeleteOne_def)
  with a show "DeleteTask c taskID = (c, Some ErrTaskNotFound)"
    by (simp add: DeleteTask_def)
next
  assume a: "distinct (map ID (documents c)) \<and> DeleteTask c taskID = (c', None)"
  then obtain objID where hex: "ObjectIDFromHex taskID = Inr objID"
    by (cases "ObjectIDFromHex taskID") (auto simp: DeleteTask_def)
  from a hex obtain n where del: "DeleteOne c objID = Inr (c', n)" and n: "n \<noteq> 0"
    by (auto simp: DeleteTask_def split: sum.splits if_splits)
  from del have nofault: "fault c' = None" and first: "delete_first objID (documents c) = (documents c', n)"
    by (auto simp: DeleteOne_def split: option.splits prod.splits)
  from a have "distinct (map ID (documents c))"
    by simp
  from delete_first_gone [OF this first n] have "objID \<notin> ID ` set (documents c')" .
  then have "FindOne c' objID = Inl ErrNoDocuments"
    using nofault by (simp add: FindOne_def find_ID_None [symmetric])
  with hex show "GetTaskByID c' taskID = Inl ErrTaskNotFound"
    by (simp add: GetTaskByID_def)
qed

theorem DeleteTask_errors_witness:
  "ObjectIDFromHex ''not-an-id'' = Inl ErrInvalidHex \<and>
   DeleteTask example_tasks ''not-an-id'' = (example_tasks, Some ErrInvalidTaskID) \<and>
   ObjectIDFromHex ''000000000000000000000002'' = Inr 2 \<and>
   FindOne example_tasks 2 = Inl ErrNoDocuments \<and>
   DeleteTask example_tasks ''000000000000000000000002'' = (example_tasks, Some ErrTaskNotFound) \<and>
   distinct (map ID (documents example_tasks)) \<and>
   DeleteTask example_tasks ''000000000000000000000001'' = (no_tasks, None) \<and>
   GetTaskByID no_tasks ''000000000000000000000001'' = Inl ErrTaskNotFound"
proof -
  have bad: "ObjectIDFromHex ''not-an-id'' = Inl ErrInvalidHex"
    by (simp add: ObjectIDFromHex_def)
  have absent: "FindOne example_tasks 2 = Inl ErrNoDocuments"
    by (simp add: FindOne_def example_tasks_def example_task_def)
  have wf: "distinct (map ID (documents example_tasks))"
    by (simp add: example_tasks_def)
  have del: "DeleteTask example_tasks ''000000000000000000000001'' = (no_tasks, None)"
    by (simp add: DeleteTask_def hex_one DeleteOne_def example_tasks_def example_task_def no_tasks_def)
  from DeleteTask_errors [of "''not-an-id''" ErrInvalidHex example_tasks] bad
  have 1: "DeleteTask example_tasks ''not-an-id'' = (example_tasks, Some ErrInvalidTaskID)"
    by simp
  from DeleteTask_errors [of "''000000000000000000000002''" _ example_tasks 2] hex_two absent
  have 2: "DeleteTask example_tasks ''000000000000000000000002'' = (example_tasks, Some ErrTaskNotFound)"
    by simp
  from DeleteTask_errors [of "''000000000000000000000001''" _ example_tasks _ no_tasks] wf del
  have 3: "GetTaskByID no_tasks ''000000000000000000000001'' = Inl ErrTaskNotFound"
    by simp
  from bad 1 hex_two absent 2 wf del 3 show ?thesis
    by simp
qed

text \<open>
  Claim C6. \<^verbatim>\<open>GetAllTasks\<close> never returns a \<^verbatim>\<open>nil\<close> slice as its result, and on a
  collection without documents it returns the empty slice; the controller writes the
  empty JSON array for a slice of length zero, \<^verbatim>\<open>nil\<close> or not, and never writes
  \<^verbatim>\<open>null\<close>.
\<close>

theorem GetAllTasks_never_nil:
  "GetAllTasks c \<noteq> Inr nil \<and>
   (fault c = None \<and> documents c = [] \<longrightarrow> GetAllTasks c = Inr (Slice [])) \<and>
   (len tasks = 0 \<longrightarrow> TaskController_GetAllTasks (Inr tasks) = (200, Arr [])) \<and>
   snd (TaskController_GetAllTasks result) \<noteq> Null"
proof (intro conjI impI)
  show "GetAllTasks c \<noteq> Inr nil"
    by (simp add: GetAllTasks_def cursor_All_def split: sum.splits)
  show "GetAllTasks c = Inr (Slice [])" if "fault c = None \<and> documents c = []"
    using that by (simp add: GetAllTasks_def Find_def cursor_All_def)
  show "TaskController_GetAllTasks (Inr tasks) = (200, Arr [])" if "len tasks = 0"
    using that by (simp add: TaskController_GetAllTasks_def)
  show "snd (TaskController_GetAllTasks result) \<noteq> Null"
  proof (cases result)
    case (Inl err)
    then show ?thesis by (simp add: TaskController_GetAllTasks_def)
  next
    case (Inr tasks)
    then show ?thesis
      by (cases tasks) (simp_all add: TaskController_GetAllTasks_def)
  qed
qed

theorem GetAllTasks_never_nil_witness:
  "fault no_tasks = None \<and> documents no_tasks = [] \<and>
   GetAllTasks no_tasks = Inr (Slice []) \<and>
   len (nil :: Task slice) = 0 \<and>
   TaskController_GetAllTasks (Inr nil) = (200, Arr []) \<and>
   TaskController_GetAllTasks (GetAllTasks no_tasks) = (200, Arr [])"
proof -
  have "GetAllTasks no_tasks = Inr (Slice [])"
    using GetAllTasks_never_nil [of no_tasks] by (simp add: no_tasks_def)
  moreover have "TaskController_GetAllTasks (Inr nil) = (200, Arr [])"
    using GetAllTasks_never_nil [of _ nil] by simp
  moreover have "TaskController_GetAllTasks (Inr (Slice [])) = (200, Arr [])"
    using GetAllTasks_never_nil [of _ "Slice []"] by simp
  ultimately show ?thesis
    by (simp add: no_tasks_def)
qed

section \<open>Creating a task\<close>




section \<open>The controllers: login\<close>

text \<open>
  Claim C8. When the use case \<^verbatim>\<open>Login\<close> succeeds, the controller answers 200 with the
  token and a view of the user that has exactly the keys \<^verbatim>\<open>id\<close>, \<^verbatim>\<open>role\<close> and
  \<^verbatim>\<open>username\<close>; the answer is the same whatever the password hash of the user record
  is, so the hash is not part of what is written.
\<close>

theorem Login_view:
  assumes "Login creds = Inr (token, user)"
  shows "UserController_Login (Inr creds) Login =
           (200, Obj [(''token'', Str token),
                      (''user'', Obj [(''id'', Oid (UserID user)),
                                      (''role'', Str (Role user)),
                                      (''username'', Str (Username user))])]) \<and>
         UserController_Login (Inr creds) (\<lambda>x. Inr (token, user\<lparr>Password := other\<rparr>)) =
           UserController_Login (Inr creds) Login"
  using assms by (simp add: UserController_Login_def)

theorem Login_view_witness:
  "alice_login \<lparr>cred_Username = ''alice'', cred_Password = ''pw123456''\<rparr> =
     Inr (''signed-token'', alice) \<and>
   UserController_Login (Inr \<lparr>cred_Username = ''alice'', cred_Password = ''pw123456''\<rparr>) alice_login =
     (200, Obj [(''token'', Str ''signed-token''),
                (''user'', Obj [(''id'', Oid 1), (''role'', Str ''admin''),
                                (''username'', Str ''alice'')])])"
proof -
  have ok: "alice_login \<lparr>cred_Username = ''alice'', cred_Password = ''pw123456''\<rparr> =
     Inr (''signed-token'', alice)"
    by (simp add: alice_login_def)
  from Login_view [of alice_login "\<lparr>cred_Username = ''alice'', cred_Password = ''pw123456''\<rparr>"
      "''signed-token''" alice] ok
  show ?thesis
    by (simp add: alice_def)
qed

section \<open>The user repository\<close>

text \<open>
  Claim C10. A \<^verbatim>\<open>CreateUser\<close> that succeeds appends the user under the identifier
  it was given when that is not zero, and under the drawn identifier when it is zero;
  with an identifier that is not zero the drawn one plays no part in the result. A
  \<^verbatim>\<open>CreateTask\<close> that succeeds always stores the task under the drawn identifier.
\<close>

theorem CreateUser_keeps_supplied_ID:
  "(CreateUser newID c user = (c', None) \<longrightarrow>
      users c' = users c @
        [user\<lparr>UserID := (if ObjectID_IsZero (UserID user) then newID else UserID user)\<rparr>]) \<and>
   (\<not> ObjectID_IsZero (UserID user) \<longrightarrow> CreateUser newID c user = CreateUser otherID c user) \<and>
   (CreateTask newID tc task = (tc', Inr created) \<longrightarrow>
      ID created = newID \<and> map ID (documents tc') = map ID (documents tc) @ [newID])"
proof (intro conjI impI)
  assume "CreateUser newID c user = (c', None)"
  then show "users c' = users c @
      [user\<lparr>UserID := (if ObjectID_IsZero (UserID user) then newID else UserID user)\<rparr>]"
    by (auto simp: CreateUser_def InsertOne_user_def Let_def split: option.splits if_splits)
next
  assume "\<not> ObjectID_IsZero (UserID user)"
  then show "CreateUser newID c user = CreateUser otherID c user"
    by (simp add: CreateUser_def)
next
  assume "CreateTask newID tc task = (tc', Inr created)"
  then have stored: "created = task\<lparr>ID := newID\<rparr>"
      "tc' = tc\<lparr>documents := documents tc @ [stored_form created]\<rparr>"
    by (simp_all add: CreateTask_success)
  from stored show "ID created = newID"
    by simp
  from stored show "map ID (documents tc') = map ID (documents tc) @ [newID]"
    by (simp add: ID_stored_form)
qed

theorem CreateUser_keeps_supplied_ID_witness:
  "CreateUser 9 users_without_index bob =
     (\<lparr>users = [alice, bob], username_index = False, user_fault = None\<rparr>, None) \<and>
   UserID bob = 5 \<and> \<not> ObjectID_IsZero (UserID bob) \<and>
   CreateUser 9 users_without_index bob = CreateUser 4 users_without_index bob \<and>
   CreateUser 9 users_without_index (bob\<lparr>UserID := 0\<rparr>) =
     (\<lparr>users = [alice, bob\<lparr>UserID := 9\<rparr>], username_index = False, user_fault = None\<rparr>, None) \<and>
   CreateTask 9 example_tasks titled_task =
     (\<lparr>documents = [example_task, titled_task\<lparr>ID := 9\<rparr>], fault = None\<rparr>,
      Inr (titled_task\<lparr>ID := 9\<rparr>)) \<and>
   ID titled_task = 7 \<and>
   map ID (documents \<lparr>documents = [example_task, titled_task\<lparr>ID := 9\<rparr>], fault = None\<rparr>) =
     map ID (documents example_tasks) @ [9]"
proof -
  let ?c1 = "\<lparr>users = [alice, bob], username_index = False, user_fault = None\<rparr>"
  let ?c2 = "\<lparr>users = [alice, bob\<lparr>UserID := 9\<rparr>], username_index = False, user_fault = None\<rparr>"
  let ?tc = "\<lparr>documents = [example_task, titled_task\<lparr>ID := 9\<rparr>], fault = None\<rparr>"
  have a: "CreateUser 9 users_without_index bob = (?c1, None)"
    by (simp add: CreateUser_def InsertOne_user_def ObjectID_IsZero_def NilObjectID_def
        users_without_index_def alice_def bob_def)
  have b: "CreateUser 9 users_without_index (bob\<lparr>UserID := 0\<rparr>) = (?c2, None)"
    by (simp add: CreateUser_def InsertOne_user_def ObjectID_IsZero_def NilObjectID_def
        users_without_index_def alice_def bob_def)
  have c: "CreateTask 9 example_tasks titled_task = (?tc, Inr (titled_task\<lparr>ID := 9\<rparr>))"
    by (simp add: CreateTask_def InsertOne_def Let_def stored_form_def bson_DateTime_def
        example_tasks_def example_task_def titled_task_def)
  from CreateUser_keeps_supplied_ID [where newID = 9 and c = users_without_index and user = bob
      and c' = ?c1] a
  have "users ?c1 = users users_without_index @ [bob\<lparr>UserID := 5\<rparr>]"
    by (simp add: ObjectID_IsZero_def NilObjectID_def bob_def)
  moreover
  from CreateUser_keeps_supplied_ID [where newID = 9 and tc = example_tasks and task = titled_task
      and tc' = ?tc and created = "titled_task\<lparr>ID := 9\<rparr>"] c
  have "map ID (documents ?tc) = map ID (documents example_tasks) @ [9]"
    by simp
  moreover
  from CreateUser_keeps_supplied_ID [where newID = 9 and c = users_without_index and user = bob
      and otherID = 4]
  have "CreateUser 9 users_without_index bob = CreateUser 4 users_without_index bob"
    by (simp add: ObjectID_IsZero_def NilObjectID_def bob_def)
  ultimately show ?thesis
    using a b c by (simp add: bob_def titled_task_def ObjectID_IsZero_def NilObjectID_def)
qed

text \<open>
  Claim C4, as amended. On a collection that carries a unique index on
  \<^verbatim>\<open>username\<close>, and with the server answering, \<^verbatim>\<open>CreateUser\<close> of a user whose
  name is already stored fails with \<^verbatim>\<open>ErrUserExists\<close> and returns the collection as
  it was: no second record is created.
\<close>

theorem CreateUser_duplicate_username:
  assumes "username_index c" and "user_fault c = None"
    and "Username user \<in> set (map Username (users c))"
  shows "CreateUser newID c user = (c, Some ErrUserExists)"
  using assms
  by (simp add: CreateUser_def InsertOne_user_def IsDuplicateKeyError_def Let_def)

theorem CreateUser_duplicate_username_witness:
  "username_index users_with_index \<and> user_fault users_with_index = None \<and>
   Username alice_again \<in> set (map Username (users users_with_index)) \<and>
   CreateUser 2 users_with_index alice_again = (users_with_index, Some ErrUserExists)"
proof -
  have h: "username_index users_with_index" "user_fault users_with_index = None"
    "Username alice_again \<in> set (map Username (users users_with_index))"
    by (simp_all add: users_with_index_def alice_again_def alice_def)
  from CreateUser_duplicate_username [OF h] h show ?thesis
    by simp
qed

text \<open>
  The claim as it was stated, for every store, fails on a collection without such an
  index: \<^verbatim>\<open>CreateUser\<close> has no check of its own, the insertion succeeds, and the
  collection holds two records named \<^verbatim>\<open>alice\<close>.
\<close>

theorem CreateUser_duplicate_without_index:
  "Username alice_again \<in> set (map Username (users users_without_index)) \<and>
   CreateUser 2 users_without_index alice_again =
     (\<lparr>users = [alice, alice_again\<lparr>UserID := 2\<rparr>], username_index = False, user_fault = None\<rparr>,
      None) \<and>
   map Username (users (fst (CreateUser 2 users_without_index alice_again))) = [''alice'', ''alice'']"
  by (simp add: CreateUser_def InsertOne_user_def ObjectID_IsZero_def NilObjectID_def
      users_without_index_def alice_def alice_again_def)

section \<open>The password service: hash and check\<close>

text \<open>
  Claim C3, as amended. For every password \<open>p\<close> that \<^verbatim>\<open>HashPassword\<close> accepts, with
  hash \<open>h\<close>: \<^verbatim>\<open>CheckPassword\<close> of \<open>h\<close> and \<open>p\<close> is true; \<^verbatim>\<open>CheckPassword\<close> of
  \<open>h\<close> and any \<open>q\<close> is true exactly when \<^verbatim>\<open>bcrypt\<close> gives \<open>q\<close> the digest of
  \<open>p\<close> under the salt and cost of \<open>h\<close>, which is the case for every \<open>q\<close> with the
  key words of \<open>p\<close>. For every stored text and password, \<^verbatim>\<open>CheckPassword\<close> is false
  when the text does not parse as a hash and whenever the comparison returns an error:
  it has no error of its own to return.
\<close>

theorem CheckPassword_HashPassword:
  assumes "HashPassword bf entropy p = (h, None)"
  shows "CheckPassword bf h p \<and>
         (\<exists>hp. newFromHash h = Inr hp \<and>
            (CheckPassword bf h q \<longleftrightarrow>
               bcrypt bf q (p_cost hp) (p_salt hp) = bcrypt bf p (p_cost hp) (p_salt hp))) \<and>
         (key_words (q @ [CHR 0x00]) = key_words (p @ [CHR 0x00]) \<longrightarrow> CheckPassword bf h q) \<and>
         (newFromHash h' = Inl err \<longrightarrow> \<not> CheckPassword bf h' q') \<and>
         (CompareHashAndPassword bf h' q' \<noteq> None \<longrightarrow> \<not> CheckPassword bf h' q')"
proof -
  from assms obtain unencodedSalt digest where
    salt: "entropy = Some unencodedSalt"
    and digest: "bcrypt bf p 10 (base64Encode (salt_bytes unencodedSalt)) = Inr digest"
    and h: "h = Hash \<lparr>p_hash = digest, p_salt = base64Encode (salt_bytes unencodedSalt), p_cost = 10,
               p_major = CHR ''2'', p_minor = CHR ''a''\<rparr>"
    by (rule HashPassword_ok)
  let ?salt = "base64Encode (salt_bytes unencodedSalt)"
  let ?hp = "\<lparr>p_hash = digest, p_salt = ?salt, p_cost = 10, p_major = CHR ''2'', p_minor = CHR ''a''\<rparr>"
  have len_salt: "length ?salt = 22"
    by (simp add: length_base64Encode length_salt_bytes)
  have len_digest: "length digest = 31"
    using digest by (rule length_bcrypt)
  have parsed: "newFromHash h = Inr ?hp"
    unfolding h using len_salt len_digest by (rule newFromHash_Hash)
  have general: "CheckPassword bf h x \<longleftrightarrow> bcrypt bf x 10 ?salt = Inr digest" for x
  proof (cases "bcrypt bf x 10 ?salt")
    case (Inl e)
    with parsed show ?thesis
      by (simp add: CheckPassword_def CompareHashAndPassword_def)
  next
    case (Inr other)
    then have "length other = 31"
      by (rule length_bcrypt)
    with len_digest have "Hash ?hp = Hash (?hp\<lparr>p_hash := other\<rparr>) \<longleftrightarrow> digest = other"
      using Hash_same_iff [of digest other ?hp] by simp
    with parsed Inr show ?thesis
      by (auto simp: CheckPassword_def CompareHashAndPassword_def)
  qed
  have own: "CheckPassword bf h p"
    using general [of p] digest by simp
  have char: "CheckPassword bf h q \<longleftrightarrow>
      bcrypt bf q (p_cost ?hp) (p_salt ?hp) = bcrypt bf p (p_cost ?hp) (p_salt ?hp)"
    using general [of q] digest by simp
  have same: "key_words (q @ [CHR 0x00]) = key_words (p @ [CHR 0x00]) \<longrightarrow> CheckPassword bf h q"
    using own by (simp add: CheckPassword_def Compare_key_words [of q p])
  have malformed: "newFromHash h' = Inl err \<longrightarrow> \<not> CheckPassword bf h' q'"
    by (simp add: CheckPassword_def CompareHashAndPassword_def)
  have failed: "CompareHashAndPassword bf h' q' \<noteq> None \<longrightarrow> \<not> CheckPassword bf h' q'"
    by (simp add: CheckPassword_def)
  from own parsed char same malformed failed show ?thesis
    by blast
qed

text \<open>
  The claim as it was stated, false for every other password, fails: the key schedule
  reads the password with its final zero byte as a cycle and reads no more than 72
  bytes, so \<^verbatim>\<open>password\<close> and the same word twice with a zero byte between have the same
  key words, and
  so have 72 letters \<^verbatim>\<open>a\<close> with and without a \<^verbatim>\<open>b\<close> after them.
  \<^verbatim>\<open>CheckPassword\<close> cannot tell such passwords apart, whatever Blowfish computes, and
  no Blowfish makes the claim true.
\<close>

theorem CheckPassword_accepts_other_password:
  "''password'' @ [CHR 0x00] @ ''password'' \<noteq> ''password'' \<and>
   (\<forall>bf entropy.
      CheckPassword bf (fst (HashPassword bf entropy ''password'')) (''password'' @ [CHR 0x00] @ ''password'') =
      CheckPassword bf (fst (HashPassword bf entropy ''password'')) ''password'') \<and>
   replicate 72 (CHR ''a'') @ ''b'' \<noteq> replicate 72 (CHR ''a'') \<and>
   (\<forall>bf entropy.
      CheckPassword bf (fst (HashPassword bf entropy (replicate 72 (CHR ''a'')))) (replicate 72 (CHR ''a'') @ ''b'') =
      CheckPassword bf (fst (HashPassword bf entropy (replicate 72 (CHR ''a'')))) (replicate 72 (CHR ''a''))) \<and>
   \<not> (\<exists>bf entropy. \<forall>p q. q \<noteq> p \<longrightarrow>
         CheckPassword bf (fst (HashPassword bf entropy p)) p \<and>
         \<not> CheckPassword bf (fst (HashPassword bf entropy p)) q)"
proof -
  let ?p = "''password''" and ?q = "''password'' @ [CHR 0x00] @ ''password''"
  let ?a = "replicate 72 (CHR ''a'')"
  have "key_words (?q @ [CHR 0x00]) = key_words (?p @ [CHR 0x00])"
    using doubled_password [of ?p] by simp
  from Compare_key_words [OF this]
  have cyc: "CheckPassword bf h ?q = CheckPassword bf h ?p" for bf h
    unfolding CheckPassword_def by (rule arg_cong)
  have "72 \<le> length ?a"
    by simp
  from Compare_key_words [OF long_password [OF this]]
  have cut: "CheckPassword bf h (?a @ ''b'') = CheckPassword bf h ?a" for bf h
    unfolding CheckPassword_def by (rule arg_cong)
  have "length ?q \<noteq> length ?p" and "length (?a @ ''b'') \<noteq> length ?a"
    by simp_all
  then have differ: "?q \<noteq> ?p" "?a @ ''b'' \<noteq> ?a"
    by blast+
  have none: "\<not> (\<exists>bf entropy. \<forall>p q. q \<noteq> p \<longrightarrow>
         CheckPassword bf (fst (HashPassword bf entropy p)) p \<and>
         \<not> CheckPassword bf (fst (HashPassword bf entropy p)) q)"
  proof
    assume "\<exists>bf entropy. \<forall>p q. q \<noteq> p \<longrightarrow>
         CheckPassword bf (fst (HashPassword bf entropy p)) p \<and>
         \<not> CheckPassword bf (fst (HashPassword bf entropy p)) q"
    then obtain bf entropy where all: "\<And>p q. q \<noteq> p \<Longrightarrow>
         CheckPassword bf (fst (HashPassword bf entropy p)) p \<and>
         \<not> CheckPassword bf (fst (HashPassword bf entropy p)) q"
      by blast
    from all [OF differ(1)] cyc [of bf "fst (HashPassword bf entropy ?p)"] show False
      by simp
  qed
  show ?thesis
    by (intro conjI allI) (rule differ cyc cut none)+
qed

text \<open>The instance: a password of eight characters, its double, and a text that is no hash.\<close>

theorem CheckPassword_HashPassword_witness:
  "HashPassword stand_in (Some 0) ''pw123456'' =
     (fst (HashPassword stand_in (Some 0) ''pw123456''), None) \<and>
   CheckPassword stand_in (fst (HashPassword stand_in (Some 0) ''pw123456'')) ''pw123456'' \<and>
   key_words ((''pw123456'' @ [CHR 0x00] @ ''pw123456'') @ [CHR 0x00]) =
     key_words (''pw123456'' @ [CHR 0x00]) \<and>
   CheckPassword stand_in (fst (HashPassword stand_in (Some 0) ''pw123456''))
     (''pw123456'' @ [CHR 0x00] @ ''pw123456'') \<and>
   newFromHash ''not a bcrypt hash'' = Inl ErrHashTooShort \<and>
   CompareHashAndPassword stand_in ''not a bcrypt hash'' ''pw123456'' \<noteq> None \<and>
   \<not> CheckPassword stand_in ''not a bcrypt hash'' ''pw123456''"
proof -
  let ?h = "fst (HashPassword stand_in (Some 0) ''pw123456'')"
  have "key_words (''pw123456'' @ [CHR 0x00]) \<noteq> []"
    by (simp add: key_words_cyclic)
  then have ok: "HashPassword stand_in (Some 0) ''pw123456'' = (?h, None)"
    by (simp add: HashPassword_def GenerateFromPassword_def DefaultCost_def MinCost_def MaxCost_def
        checkCost_def Let_def bcrypt_def stand_in_def split: list.splits)
  have bad: "newFromHash ''not a bcrypt hash'' = Inl ErrHashTooShort"
    by (simp add: newFromHash_def)
  note main = CheckPassword_HashPassword [OF ok, where q = "''pw123456'' @ [CHR 0x00] @ ''pw123456''"
      and h' = "''not a bcrypt hash''" and err = ErrHashTooShort and q' = "''pw123456''"]
  from main have 1: "CheckPassword stand_in ?h ''pw123456''"
    by blast
  from main doubled_password [of "''pw123456''"]
  have 2: "CheckPassword stand_in ?h (''pw123456'' @ [CHR 0x00] @ ''pw123456'')"
    by simp
  from main bad have 3: "\<not> CheckPassword stand_in ''not a bcrypt hash'' ''pw123456''"
    by blast
  have same: "key_words ((''pw123456'' @ [CHR 0x00] @ ''pw123456'') @ [CHR 0x00]) =
      key_words (''pw123456'' @ [CHR 0x00])"
    by (rule doubled_password)
  have 4: "CompareHashAndPassword stand_in ''not a bcrypt hash'' ''pw123456'' \<noteq> None"
    using bad by (simp add: CompareHashAndPassword_def)
  from ok 1 same 2 bad 4 3 show ?thesis
    by (intro conjI)
qed

end
